theory Spec2Isabelle
  imports Main "HOL-Library.Word"
begin

section \<open>LFRing: a ring buffer of fixed-size items in a file, positions kept in NVS\<close>

text \<open>
  The embedding follows \<^verbatim>\<open>src/LFRing.c\<close> function by function. The target is the
  ESP32 (ESP-IDF, FreeRTOS), where \<^verbatim>\<open>int\<close>, \<^verbatim>\<open>size_t\<close> and \<^verbatim>\<open>uint32_t\<close> all have 32
  bits: the indices, sizes and counts of the source are \<open>32 word\<close>s, an \<^verbatim>\<open>int\<close> among
  them being read with \<open>sint\<close> and an unsigned value with \<open>unat\<close>. Conversions between
  \<^verbatim>\<open>int\<close> and the unsigned types keep the bit pattern, so \<open>+\<close>, \<open>-\<close>, \<open>*\<close> wrap, and
  \<open>mod\<close>, \<open><\<close>, \<open>\<le>\<close> are the unsigned ones wherever the C expression has an unsigned
  operand. The status codes, and the value a user-layer function returns, are \<open>int\<close>.
  A function takes the environment and the metadata struct and returns them updated,
  next to its result.

  The mutex \<^verbatim>\<open>meta->lock\<close> is left out: the model runs one call at a time. The fields
  \<^verbatim>\<open>root\<close> and \<^verbatim>\<open>nvs_namespace\<close> are left out as well: the environment below holds the
  one NVS namespace and the one file \<^verbatim>\<open><root>/<namespace>.bin\<close> that they select.
\<close>

type_synonym u32 = "32 word"
type_synonym byte = "8 word"

subsection \<open>Error codes (\<^verbatim>\<open>ringbuf_error_t\<close>)\<close>

definition LFRB_OK :: int where "LFRB_OK = 0"
definition LFRB_NVS_ERROR :: int where "LFRB_NVS_ERROR = 1"
definition LFRB_LFS_ERROR :: int where "LFRB_LFS_ERROR = 2"
definition LFRB_ROOT_NOT_FOUND_ERROR :: int where "LFRB_ROOT_NOT_FOUND_ERROR = 3"
definition LFRB_NFILE_ERROR :: int where "LFRB_NFILE_ERROR = 4"

text \<open>
  \<^verbatim>\<open>LFRB_ENUM_EXCEED\<close>, which \<^verbatim>\<open>LFRingWrite\<close> returns negated, is not declared in
  \<^verbatim>\<open>LFRing.h\<close>: its value is a parameter \<open>ee\<close> of \<open>LFRingWrite\<close>.
\<close>

subsection \<open>The metadata struct and the environment\<close>

record ringbuf_meta_t =
  head :: u32
  tail :: u32
  item_size :: u32
  item_num :: u32

text \<open>
  The NVS namespace: the four keys \<^verbatim>\<open>"head"\<close>, \<^verbatim>\<open>"tail"\<close>, \<^verbatim>\<open>"size"\<close>, \<^verbatim>\<open>"num"\<close>, each
  present or not.
\<close>

record nvs_ns =
  k_head :: "u32 option"
  k_tail :: "u32 option"
  k_size :: "u32 option"
  k_num :: "u32 option"

text \<open>
  A call of the block layer, recorded when \<^verbatim>\<open>ringbuf_write\<close> or \<^verbatim>\<open>ringbuf_read\<close> is
  entered: the slot (\<^verbatim>\<open>meta->head\<close> or \<^verbatim>\<open>meta->tail\<close> at that moment) and the argument
  \<^verbatim>\<open>num\<close>.
\<close>

datatype blk_op = BlockWrite u32 u32 | BlockRead u32 u32

text \<open>
  The environment of the engine:
  \<^item> \<open>nvs_up\<close>: whether \<^verbatim>\<open>nvs_open\<close> can succeed at all (the NVS partition is
    initialised);
  \<^item> \<open>nvs\<close>: the namespace, \<open>None\<close> while it does not exist. Opening it read-only
    fails then; opening it read-write creates it;
  \<^item> \<open>root_ok\<close>: whether the root directory exists (\<^verbatim>\<open>stat\<close> succeeds and files under
    it can be opened or created);
  \<^item> \<open>bin_file\<close>: the bytes of the block file, \<open>None\<close> while it does not exist;
  \<^item> \<open>trace\<close>: the calls of the block layer so far, oldest first. Nothing reads it.
\<close>

record env =
  nvs_up :: bool
  nvs :: "nvs_ns option"
  root_ok :: bool
  bin_file :: "byte list option"
  trace :: "blk_op list"

subsection \<open>Metadata in NVS\<close>

text \<open>\<^verbatim>\<open>nvs_get_u32\<close> leaves \<^verbatim>\<open>*out\<close> as it was when the key is missing.\<close>

definition nvs_get_u32 :: "u32 option \<Rightarrow> u32 \<Rightarrow> u32" where
  "nvs_get_u32 entry old = (case entry of Some v \<Rightarrow> v | None \<Rightarrow> old)"

definition save_ringbuf_meta :: "env \<Rightarrow> ringbuf_meta_t \<Rightarrow> int \<times> env" where
  "save_ringbuf_meta e m =
     (if nvs_up e
      then (LFRB_OK,
            e\<lparr>nvs := Some \<lparr>k_head = Some (head m), k_tail = Some (tail m),
                            k_size = Some (item_size m), k_num = Some (item_num m)\<rparr>\<rparr>)
      else (- LFRB_NVS_ERROR, e))"

definition reset_ringbuf_meta ::
  "env \<Rightarrow> ringbuf_meta_t \<Rightarrow> u32 \<Rightarrow> u32 \<Rightarrow> int \<times> env \<times> ringbuf_meta_t" where
  "reset_ringbuf_meta e m itemSize itemNum =
     (let m' = m\<lparr>head := 0, tail := 0, item_size := itemSize, item_num := itemNum\<rparr>;
          (st, e') = save_ringbuf_meta e m'
      in (st, e', m'))"

definition load_ringbuf_meta :: "env \<Rightarrow> ringbuf_meta_t \<Rightarrow> int \<times> ringbuf_meta_t" where
  "load_ringbuf_meta e m =
     (case (if nvs_up e then nvs e else None) of
        Some ns \<Rightarrow>
          (LFRB_OK, m\<lparr>head := nvs_get_u32 (k_head ns) (head m),
                       tail := nvs_get_u32 (k_tail ns) (tail m)\<rparr>)
      | None \<Rightarrow> (- LFRB_NVS_ERROR, m))"

definition init_ringbuf_meta ::
  "env \<Rightarrow> ringbuf_meta_t \<Rightarrow> u32 \<Rightarrow> u32 \<Rightarrow> int \<times> env \<times> ringbuf_meta_t" where
  "init_ringbuf_meta e m itemSize itemNum =
     (case (if nvs_up e then nvs e else None) of
        Some ns \<Rightarrow>
          (let m1 = m\<lparr>head := nvs_get_u32 (k_head ns) (head m),
                      tail := nvs_get_u32 (k_tail ns) (tail m),
                      item_size := nvs_get_u32 (k_size ns) (item_size m),
                      item_num := nvs_get_u32 (k_num ns) (item_num m)\<rparr>
           in if item_size m1 \<noteq> itemSize \<or> item_num m1 \<noteq> itemNum
              then (let (status, e', m2) = reset_ringbuf_meta e m1 itemSize itemNum
                    in if status < 0 then (status, e', m2) else (LFRB_OK, e', m2))
              else (LFRB_OK, e, m1))
      | None \<Rightarrow>
          (let (status, e', m2) = reset_ringbuf_meta e m itemSize itemNum
           in if status < 0 then (status, e', m2) else (LFRB_OK, e', m2)))"

subsection \<open>The block file\<close>

text \<open>\<^verbatim>\<open>fopen(path, "wb")\<close>: creates the file or truncates it to length 0.\<close>

definition reset_ringbuf_lfs :: "env \<Rightarrow> int \<times> env" where
  "reset_ringbuf_lfs e =
     (if root_ok e then (LFRB_OK, e\<lparr>bin_file := Some []\<rparr>) else (- LFRB_LFS_ERROR, e))"

definition init_ringbuf_lfs :: "env \<Rightarrow> ringbuf_meta_t \<Rightarrow> int \<times> env" where
  "init_ringbuf_lfs e m =
     (if \<not> root_ok e then (- LFRB_ROOT_NOT_FOUND_ERROR, e)
      else if head m = 0 \<and> tail m = 0 then reset_ringbuf_lfs e
      else (LFRB_OK, e))"

text \<open>
  \<^verbatim>\<open>fopen(path, "rb+")\<close> and \<^verbatim>\<open>fopen(path, "rb")\<close> succeed when the file exists under
  an existing root.
\<close>

definition can_open :: "env \<Rightarrow> bool" where
  "can_open e = (root_ok e \<and> bin_file e \<noteq> None)"

text \<open>
  \<^verbatim>\<open>fseek(f, pos, SEEK_SET)\<close> then \<^verbatim>\<open>fwrite\<close> of the bytes \<open>bs\<close>: the bytes replace
  those at \<open>pos\<close>, the file grows as needed, and a gap between the old end and \<open>pos\<close>
  reads as zeros. Writing no byte leaves the file as it is.
\<close>

definition write_at :: "nat \<Rightarrow> byte list \<Rightarrow> byte list \<Rightarrow> byte list" where
  "write_at pos bs f =
     (if bs = [] then f
      else take pos f @ replicate (pos - length f) 0 @ bs @ drop (pos + length bs) f)"

text \<open>
  \<^verbatim>\<open>fwrite(data, size, num, f)\<close> on the open file: the model takes every requested
  byte to be written, and the caller's buffer \<open>data\<close> to hold at least
  \<open>size * num\<close> bytes. The count returned is \<open>num\<close>, or 0 when \<open>size\<close> is 0.
\<close>

definition fwrite_items :: "u32 \<Rightarrow> u32 \<Rightarrow> u32" where
  "fwrite_items sz num = (if sz = 0 then 0 else num)"

text \<open>
  \<^verbatim>\<open>fseek(f, pos, SEEK_SET)\<close> then \<^verbatim>\<open>fread(out, size, num, f)\<close>: the number of complete
  items between \<open>pos\<close> and the end of the file, at most \<open>num\<close>.
\<close>

definition fread_items :: "nat \<Rightarrow> u32 \<Rightarrow> u32 \<Rightarrow> byte list \<Rightarrow> nat" where
  "fread_items pos sz num f =
     (if sz = 0 then 0 else min (unat num) ((length f - pos) div unat sz))"

definition ringbuf_write ::
  "env \<Rightarrow> ringbuf_meta_t \<Rightarrow> byte list \<Rightarrow> u32 \<Rightarrow> u32 \<times> env \<times> ringbuf_meta_t" where
  "ringbuf_write e0 m data num =
     (let pos = head m * item_size m;
          e = e0\<lparr>trace := trace e0 @ [BlockWrite (head m) num]\<rparr>;
          (e1, m1) =
            (if can_open e then (e, m)
             else (let (st, ea, ma) = reset_ringbuf_meta e m (item_size m) (item_num m);
                       (st', eb) = reset_ringbuf_lfs ea
                   in (eb, ma)))
      in if \<not> can_open e1 then (word_of_int (- LFRB_NFILE_ERROR), e1, m1)
         else (fwrite_items (item_size m1) num,
               e1\<lparr>bin_file := Some (write_at (unat pos)
                                    (take (unat (item_size m1) * unat num) data)
                                    (the (bin_file e1)))\<rparr>,
               m1))"

definition ringbuf_read ::
  "env \<Rightarrow> ringbuf_meta_t \<Rightarrow> u32 \<Rightarrow> u32 \<times> byte list \<times> env \<times> ringbuf_meta_t" where
  "ringbuf_read e0 m num =
     (let pos = tail m * item_size m;
          e = e0\<lparr>trace := trace e0 @ [BlockRead (tail m) num]\<rparr>
      in if \<not> can_open e
         then (let (st, ea, ma) = reset_ringbuf_meta e m (item_size m) (item_num m);
                   (st', eb) = reset_ringbuf_lfs ea
               in (0, [], eb, ma))
         else (let f = the (bin_file e);
                   n = fread_items (unat pos) (item_size m) num f
               in (word_of_nat n, take (n * unat (item_size m)) (drop (unat pos) f), e, m)))"

subsection \<open>User layer\<close>

definition LFRingInit ::
  "env \<Rightarrow> ringbuf_meta_t \<Rightarrow> u32 \<Rightarrow> u32 \<Rightarrow> int \<times> env \<times> ringbuf_meta_t" where
  "LFRingInit e m itemSize itemNum =
     (let (status, e1, m1) = init_ringbuf_meta e m itemSize itemNum
      in if status < 0 then (status, e1, m1)
         else (let (status', e2) = init_ringbuf_lfs e1 m1 in (status', e2, m1)))"

definition LFRingIsEmpty :: "env \<Rightarrow> ringbuf_meta_t \<Rightarrow> int \<times> ringbuf_meta_t" where
  "LFRingIsEmpty e m =
     (let (err, m1) = load_ringbuf_meta e m
      in if err < 0 then (err, m1)
         else ((if tail m1 = head m1 then 1 else 0), m1))"

text \<open>
  The part of \<^verbatim>\<open>LFRingWrite\<close> after the block writes: \<open>n\<close> is the sum of what the
  calls of \<^verbatim>\<open>ringbuf_write\<close> returned. \<^verbatim>\<open>% meta->item_num\<close> with \<open>item_num = 0\<close> is a
  division by zero: the result is \<open>None\<close>.
\<close>

definition write_update ::
  "env \<Rightarrow> ringbuf_meta_t \<Rightarrow> u32 \<Rightarrow> (int \<times> env \<times> ringbuf_meta_t) option" where
  "write_update e m n =
     (if item_num m = 0 then None
      else (let used = (if head m \<ge> tail m then head m - tail m
                        else item_num m - tail m + head m);
                m1 = m\<lparr>head := (head m + n) mod item_num m\<rparr>;
                m2 = (if used + n > item_num m1 - 1
                      then (let overwrite = used + n - item_num m1 + 1
                            in m1\<lparr>tail := (tail m1 + overwrite) mod item_num m1\<rparr>)
                      else m1);
                (st, e') = save_ringbuf_meta e m2
            in Some (sint n, e', m2)))"

definition LFRingWrite ::
  "int \<Rightarrow> env \<Rightarrow> ringbuf_meta_t \<Rightarrow> byte list \<Rightarrow> u32 \<Rightarrow>
     (int \<times> env \<times> ringbuf_meta_t) option" where
  "LFRingWrite ee e m0 data num =
     (let (st, m) = load_ringbuf_meta e m0
      in if num > item_num m - 1 then Some (- ee, e, m)
         else if item_num m - head m \<ge> num
         then (let (r, e1, m1) = ringbuf_write e m data num
               in write_update e1 m1 (0 + r))
         else (let write_num = item_num m - head m;
                   (r1, e1, m1) = ringbuf_write e m data write_num;
                   m2 = m1\<lparr>head := 0\<rparr>;
                   (r2, e2, m3) = ringbuf_write e1 m2
                                    (drop (unat (write_num * item_size m2)) data)
                                    (num - write_num)
               in write_update e2 m3 (0 + r1 + r2)))"

definition LFRingRead ::
  "env \<Rightarrow> ringbuf_meta_t \<Rightarrow> u32 \<Rightarrow> (int \<times> byte list \<times> env \<times> ringbuf_meta_t) option" where
  "LFRingRead e m0 num =
     (let (st, m) = load_ringbuf_meta e m0
      in if tail m = head m then Some (0, [], e, m)
         else (let (n, out, e1, m1) = ringbuf_read e m num
               in if item_num m1 = 0 then None
                  else (let m2 = m1\<lparr>tail := (tail m1 + n) mod item_num m1\<rparr>;
                            (st', e2) = save_ringbuf_meta e1 m2
                        in Some (sint n, out, e2, m2))))"

subsection \<open>Callers and concrete states\<close>

text \<open>The namespace as \<^verbatim>\<open>save_ringbuf_meta\<close> leaves it: all four keys set.\<close>

definition persisted :: "u32 \<Rightarrow> u32 \<Rightarrow> u32 \<Rightarrow> u32 \<Rightarrow> nvs_ns option" where
  "persisted h t sz n =
     Some \<lparr>k_head = Some h, k_tail = Some t, k_size = Some sz, k_num = Some n\<rparr>"

text \<open>
  A caller that issues one \<^verbatim>\<open>LFRingWrite\<close> after the other, each with its buffer and
  its count, and collects the values returned.
\<close>

fun LFRingWrite_seq ::
  "int \<Rightarrow> env \<Rightarrow> ringbuf_meta_t \<Rightarrow> (byte list \<times> u32) list \<Rightarrow>
     (int list \<times> env \<times> ringbuf_meta_t) option" where
  "LFRingWrite_seq ee e m [] = Some ([], e, m)"
| "LFRingWrite_seq ee e m ((d, k) # ws) =
     (case LFRingWrite ee e m d k of
        None \<Rightarrow> None
      | Some (r, e', m') \<Rightarrow>
          (case LFRingWrite_seq ee e' m' ws of
             None \<Rightarrow> None
           | Some (rs, e'', m'') \<Rightarrow> Some (r # rs, e'', m'')))"

text \<open>
  The states a buffer goes through while it is filled from empty without wrapping:
  \<open>h\<close> items written, none read, and the file holding exactly their bytes \<open>f\<close>.
\<close>

definition fifo_inv ::
  "u32 \<Rightarrow> u32 \<Rightarrow> u32 \<Rightarrow> byte list \<Rightarrow> env \<Rightarrow> ringbuf_meta_t \<Rightarrow> bool" where
  "fifo_inv sz n h f e m =
     (nvs_up e \<and> root_ok e \<and> nvs e = persisted h 0 sz n \<and> bin_file e = Some f \<and>
      item_size m = sz \<and> item_num m = n \<and> length f = unat h * unat sz)"

section \<open>Basic facts\<close>

lemmas status_defs = LFRB_OK_def LFRB_NVS_ERROR_def LFRB_LFS_ERROR_def
  LFRB_ROOT_NOT_FOUND_ERROR_def LFRB_NFILE_ERROR_def

lemma save_cases:
  "save_ringbuf_meta e m =
     (if nvs_up e
      then (0, e\<lparr>nvs := persisted (head m) (tail m) (item_size m) (item_num m)\<rparr>)
      else (- 1, e))"
  by (simp add: save_ringbuf_meta_def persisted_def status_defs)

lemma reset_meta_cases:
  "reset_ringbuf_meta e m sz n =
     (if nvs_up e
      then (0, e\<lparr>nvs := persisted 0 0 sz n\<rparr>,
            m\<lparr>head := 0, tail := 0, item_size := sz, item_num := n\<rparr>)
      else (- 1, e, m\<lparr>head := 0, tail := 0, item_size := sz, item_num := n\<rparr>))"
  by (simp add: reset_ringbuf_meta_def save_cases)

lemma reset_lfs_cases:
  "reset_ringbuf_lfs e = (if root_ok e then (0, e\<lparr>bin_file := Some []\<rparr>) else (- 2, e))"
  by (simp add: reset_ringbuf_lfs_def status_defs)

lemma load_persisted:
  "nvs_up e \<Longrightarrow> nvs e = persisted h t sz n \<Longrightarrow>
   load_ringbuf_meta e m = (0, m\<lparr>head := h, tail := t\<rparr>)"
  by (simp add: load_ringbuf_meta_def persisted_def nvs_get_u32_def status_defs)

text \<open>Unfolding everything, to run the functions on concrete states.\<close>

lemmas lfring_defs = LFRingInit_def LFRingIsEmpty_def LFRingWrite_def LFRingRead_def
  write_update_def ringbuf_write_def ringbuf_read_def init_ringbuf_meta_def
  init_ringbuf_lfs_def load_ringbuf_meta_def nvs_get_u32_def save_cases reset_meta_cases
  reset_lfs_cases can_open_def fwrite_items_def fread_items_def write_at_def persisted_def
  status_defs Let_def

subsection \<open>32-bit arithmetic without wrap-around\<close>

lemma unat_nonzero: "(x::u32) \<noteq> 0 \<Longrightarrow> 0 < unat x"
  by (simp add: unat_gt_0)

lemma unat_pred: "(x::u32) \<noteq> 0 \<Longrightarrow> unat (x - 1) = unat x - 1"
  by (simp add: unat_minus_one)

lemma word_pred_less: "(x::u32) \<noteq> 0 \<Longrightarrow> x - 1 < x"
  by (simp add: word_less_nat_alt unat_pred unat_nonzero)

lemma sint_small: "unat (k::u32) < 2 ^ 31 \<Longrightarrow> sint k = int (unat k)"
proof -
  assume "unat k < 2 ^ 31"
  then have "int (unat k) < int (2 ^ 31)" by (simp only: of_nat_less_iff)
  moreover have u: "uint k = int (unat k)" by (rule uint_nat)
  moreover have "int (2 ^ 31) = 2 ^ 31" by (simp only: of_nat_power of_nat_numeral)
  ultimately have "uint k < 2 ^ 31" by (simp only:)
  moreover have "- (2 ^ 31) \<le> uint k"
    by (rule order_trans [of _ 0]) simp_all
  ultimately have "signed_take_bit 31 (uint k) = uint k"
    by (rule signed_take_bit_int_eq_self [rotated])
  then have "sint k = uint k" by (simp add: sint_uint)
  then show ?thesis using u by (simp only:)
qed

lemma unat_add_small:
  "unat (h::u32) + unat (k::u32) < 2 ^ 32 \<Longrightarrow> unat (h + k) = unat h + unat k"
  by (simp add: unat_add_lem [THEN iffD1])

lemma unat_mult_small:
  "unat (h::u32) * unat (k::u32) < 2 ^ 32 \<Longrightarrow> unat (h * k) = unat h * unat k"
  by (simp add: unat_mult_lem [THEN iffD1])

lemma word_mod_small: "unat (x::u32) < unat n \<Longrightarrow> x mod n = x"
  by (metis mod_word_less word_less_nat_alt)

subsection \<open>What the block layer leaves alone\<close>

lemma ringbuf_write_frame:
  assumes "ringbuf_write e m data num = (r, e', m')"
  shows "trace e' = trace e @ [BlockWrite (head m) num]"
    and "item_num m' = item_num m" and "item_size m' = item_size m"
    and "nvs_up e' = nvs_up e" and "root_ok e' = root_ok e"
  using assms
  by (auto simp: ringbuf_write_def reset_meta_cases reset_lfs_cases can_open_def Let_def
      split: if_splits)

lemma write_update_trace:
  assumes "item_num m \<noteq> 0"
  shows "\<exists>r e' m'. write_update e m n = Some (r, e', m') \<and> trace e' = trace e"
  using assms by (simp add: write_update_def save_cases Let_def)

lemma write_at_end: "write_at (length f) d f = f @ d"
  by (simp add: write_at_def)

section \<open>Advancing the head and evicting\<close>

lemma ring_used_ge: "t \<le> h \<Longrightarrow> h < n \<Longrightarrow> (h + n - t) mod n = h - (t::nat)"
proof -
  assume a: "t \<le> h" "h < n"
  then have "h + n - t = (h - t) + n" by simp
  then have "(h + n - t) mod n = (h - t) mod n" by (simp only: mod_add_self2)
  then show ?thesis using a by simp
qed

text \<open>The occupancy as the code computes it, on 32-bit words.\<close>

lemma used_unat:
  assumes h: "(h::u32) < n" and t: "t < n"
  shows "unat (if t \<le> h then h - t else n - t + h) = (unat h + unat n - unat t) mod unat n"
proof (cases "t \<le> h")
  case True
  then have "unat (h - t) = unat h - unat t" by (rule unat_sub)
  moreover have "unat t \<le> unat h" using True by (simp add: word_le_nat_alt)
  moreover have "unat h < unat n" using h by (simp add: word_less_nat_alt)
  ultimately show ?thesis using True by (simp add: ring_used_ge)
next
  case False
  then have th: "unat h < unat t" by (simp add: word_le_nat_alt)
  have tn: "unat t < unat n" using t by (simp add: word_less_nat_alt)
  have "t \<le> n" using t by simp
  then have a: "unat (n - t) = unat n - unat t" by (rule unat_sub)
  have "unat n < 2 ^ LENGTH(32)" by (rule unsigned_less)
  then have "unat n < 2 ^ 32" by simp
  then have "unat (n - t) + unat h < 2 ^ 32" using a th tn by simp
  then have "unat (n - t + h) = unat (n - t) + unat h" by (rule unat_add_small)
  then show ?thesis using False a th tn by simp
qed

text \<open>
  The update of head and tail that closes \<^verbatim>\<open>LFRingWrite\<close>, read on natural numbers:
  with head and tail below \<open>N < 2 ^ 31\<close> and at most \<open>N - 1\<close> items written, the
  head advances by the number of items modulo \<open>N\<close>, and the tail advances by the
  excess of the occupancy over \<open>N - 1\<close>, the occupancy being
  \<open>(head + N - tail) mod N\<close> for the head and tail \<^emph>\<open>that the update finds\<close>.
\<close>

lemma write_update_nat:
  assumes n31: "unat (item_num m) < 2 ^ 31"
    and h: "head m < item_num m" and t: "tail m < item_num m"
    and k: "unat k \<le> unat (item_num m) - 1"
  shows "\<exists>e' m'. write_update e m k = Some (int (unat k), e', m') \<and>
           e' = (if nvs_up e
                 then e\<lparr>nvs := persisted (head m') (tail m') (item_size m) (item_num m)\<rparr>
                 else e) \<and>
           item_size m' = item_size m \<and> item_num m' = item_num m \<and>
           unat (head m') = (unat (head m) + unat k) mod unat (item_num m) \<and>
           unat (tail m') =
             (let used = (unat (head m) + unat (item_num m) - unat (tail m)) mod unat (item_num m)
              in if used + unat k > unat (item_num m) - 1
                 then (unat (tail m) + (used + unat k - (unat (item_num m) - 1)))
                        mod unat (item_num m)
                 else unat (tail m))"
proof -
  define n where "n = item_num m"
  define used where "used = (if tail m \<le> head m then head m - tail m else n - tail m + head m)"
  define U where "U = (unat (head m) + unat n - unat (tail m)) mod unat n"
  have n0: "n \<noteq> 0" using h by (auto simp: n_def)
  have npos: "0 < unat n" using n0 by (rule unat_nonzero)
  have n31': "unat n < 2 ^ 31" using n31 by (simp add: n_def)
  have hn: "unat (head m) < unat n" using h by (simp add: word_less_nat_alt n_def)
  have tn: "unat (tail m) < unat n" using t by (simp add: word_less_nat_alt n_def)
  have used: "unat used = U" unfolding used_def U_def n_def using h t by (rule used_unat)
  have Un: "U < unat n" using npos by (simp add: U_def)
  have k': "unat k \<le> unat n - 1" using k by (simp add: n_def)
  have klt: "unat k < 2 ^ 31" using k' n31' by simp
  have ret: "sint k = int (unat k)" using klt by (rule sint_small)
  have "unat (head m) + unat k < 2 ^ 32" using hn n31' klt by simp
  then have hk: "unat (head m + k) = unat (head m) + unat k" by (rule unat_add_small)
  have head': "unat ((head m + k) mod n) = (unat (head m) + unat k) mod unat n"
    by (simp add: unat_mod hk)
  have "unat used + unat k < 2 ^ 32" using used Un n31' klt by simp
  then have uk: "unat (used + k) = U + unat k" using used by (simp add: unat_add_small)
  have pred: "unat (n - 1) = unat n - 1" using n0 by (rule unat_pred)
  have cmp: "(n - 1 < used + k) = (unat n - 1 < U + unat k)"
    by (simp add: word_less_nat_alt uk pred)
  have tail': "unat ((tail m + (used + k - n + 1)) mod n)
                = (unat (tail m) + (U + unat k - (unat n - 1))) mod unat n"
    if over: "unat n - 1 < U + unat k"
  proof -
    have ge: "unat n \<le> U + unat k" using over by simp
    then have "n \<le> used + k" by (simp add: word_le_nat_alt uk)
    then have a: "unat (used + k - n) = U + unat k - unat n" by (simp add: unat_sub uk)
    have V: "U + unat k - unat n + 1 = U + unat k - (unat n - 1)" using ge npos by simp
    have "U + unat k - unat n + 1 < 2 ^ 32" using Un k' n31' by simp
    then have "unat (used + k - n) + unat (1::u32) < 2 ^ 32" using a by simp
    then have "unat (used + k - n + 1) = unat (used + k - n) + unat (1::u32)"
      by (rule unat_add_small)
    then have ov: "unat (used + k - n + 1) = U + unat k - (unat n - 1)" using a V by simp
    have "unat (tail m) + (U + unat k - (unat n - 1)) < 2 ^ 32" using tn Un k' n31' by simp
    then have "unat (tail m) + unat (used + k - n + 1) < 2 ^ 32" by (simp only: ov)
    then have s: "unat (tail m + (used + k - n + 1)) = unat (tail m) + unat (used + k - n + 1)"
      by (rule unat_add_small)
    have "unat ((tail m + (used + k - n + 1)) mod n) = unat (tail m + (used + k - n + 1)) mod unat n"
      by (rule unat_mod)
    also have "\<dots> = (unat (tail m) + unat (used + k - n + 1)) mod unat n" by (simp only: s)
    also have "\<dots> = (unat (tail m) + (U + unat k - (unat n - 1))) mod unat n" by (simp only: ov)
    finally show ?thesis .
  qed
  have wu: "write_update e m k =
      (let m1 = m\<lparr>head := (head m + k) mod n\<rparr>;
           m2 = (if n - 1 < used + k then m1\<lparr>tail := (tail m + (used + k - n + 1)) mod n\<rparr>
                 else m1)
       in Some (sint k, snd (save_ringbuf_meta e m2), m2))"
    using n0 by (simp add: write_update_def Let_def used_def n_def split_beta)
  show ?thesis
  proof (cases "unat n - 1 < U + unat k")
    case True
    then show ?thesis using ret head' cmp tail' [OF True]
      by (simp add: wu Let_def save_cases flip: n_def U_def)
  next
    case False
    then show ?thesis using ret head' cmp
      by (simp add: wu Let_def save_cases flip: n_def U_def)
  qed
qed

text \<open>
  A write that fits between the head and the end of the file (\<open>head + k \<le> N\<close>), on
  a file that can be opened: the update finds the head and tail that were reloaded, so
  head and tail advance from their values before the operation.
\<close>

lemma LFRingWrite_no_wrap:
  assumes load: "load_ringbuf_meta e m0 = (st, m)"
    and root: "root_ok e" and fl: "bin_file e = Some f"
    and sz0: "item_size m \<noteq> 0"
    and n31: "unat (item_num m) < 2 ^ 31"
    and h: "head m < item_num m" and t: "tail m < item_num m"
    and k: "unat k \<le> unat (item_num m) - 1"
    and fit: "unat (head m) + unat k \<le> unat (item_num m)"
  shows "\<exists>e' m'. LFRingWrite ee e m0 data k = Some (int (unat k), e', m') \<and>
           nvs e' = (if nvs_up e
                     then persisted (head m') (tail m') (item_size m) (item_num m)
                     else nvs e) \<and>
           unat (head m') = (unat (head m) + unat k) mod unat (item_num m) \<and>
           unat (tail m') =
             (let used = (unat (head m) + unat (item_num m) - unat (tail m)) mod unat (item_num m)
              in if used + unat k > unat (item_num m) - 1
                 then (unat (tail m) + (used + unat k - (unat (item_num m) - 1)))
                        mod unat (item_num m)
                 else unat (tail m))"
proof -
  let ?e1 = "e\<lparr>trace := trace e @ [BlockWrite (head m) k],
              bin_file := Some (write_at (unat (head m * item_size m))
                                  (take (unat (item_size m) * unat k) data) f)\<rparr>"
  have n0: "item_num m \<noteq> 0" using h by auto
  have pred: "unat (item_num m - 1) = unat (item_num m) - 1" using n0 by (rule unat_pred)
  have g1: "\<not> item_num m - 1 < k" using k by (simp add: word_less_nat_alt pred)
  have "head m \<le> item_num m" using h by simp
  then have "unat (item_num m - head m) = unat (item_num m) - unat (head m)" by (rule unat_sub)
  then have g2: "k \<le> item_num m - head m" using fit by (simp add: word_le_nat_alt)
  have rw: "ringbuf_write e m data k = (k, ?e1, m)"
    using root fl sz0 by (simp add: ringbuf_write_def can_open_def Let_def fwrite_items_def)
  have eq: "LFRingWrite ee e m0 data k = write_update ?e1 m k"
    using load g1 g2 rw by (simp add: LFRingWrite_def)
  from write_update_nat [OF n31 h t k, of ?e1]
  obtain e' m' where wu: "write_update ?e1 m k = Some (int (unat k), e', m')"
    and e': "e' = (if nvs_up ?e1
                   then ?e1\<lparr>nvs := persisted (head m') (tail m') (item_size m) (item_num m)\<rparr>
                   else ?e1)"
    and hd: "unat (head m') = (unat (head m) + unat k) mod unat (item_num m)"
    and tl: "unat (tail m') =
             (let used = (unat (head m) + unat (item_num m) - unat (tail m)) mod unat (item_num m)
              in if used + unat k > unat (item_num m) - 1
                 then (unat (tail m) + (used + unat k - (unat (item_num m) - 1)))
                        mod unat (item_num m)
                 else unat (tail m))"
    by blast
  have "nvs e' = (if nvs_up e
                  then persisted (head m') (tail m') (item_size m) (item_num m)
                  else nvs e)"
    using e' by simp
  then show ?thesis unfolding eq using wu hd tl by blast
qed

text \<open>
  The scenarios below run on a buffer of 5 slots of 1 byte, with \<^verbatim>\<open>LFRB_ENUM_EXCEED\<close>
  taken as 5, the value after the last one of \<^verbatim>\<open>ringbuf_error_t\<close>; only the value
  that a rejected request returns depends on it. The first state is the one
  \<^verbatim>\<open>LFRingInit\<close> leaves when nothing was persisted before.
\<close>

lemma fresh_init_state:
  "LFRingInit
     \<lparr>nvs_up = True, nvs = None, root_ok = True, bin_file = None, trace = []\<rparr>
     \<lparr>head = 0, tail = 0, item_size = 0, item_num = 0\<rparr> 1 5
   = (0, \<lparr>nvs_up = True, nvs = persisted 0 0 1 5, root_ok = True, bin_file = Some [],
           trace = []\<rparr>,
      \<lparr>head = 0, tail = 0, item_size = 1, item_num = 5\<rparr>)"
  by (simp add: lfring_defs)

text \<open>
  C1. A successful write of \<open>written\<close> items at head \<open>h\<close> should leave
  \<open>(h + written) mod N\<close> as the persisted head, also when the write wraps. The code
  does not do so when the write wraps: with \<open>N = 5\<close>, three items are written, then
  three more. The second write is split into two items at slot 3 and one item at slot 0;
  \<^verbatim>\<open>meta->head = 0\<close>, set for the second block, is still there when the head is
  advanced, so the persisted head is \<open>(0 + 3) mod 5 = 3\<close> where \<open>(3 + 3) mod 5 = 1\<close>
  is due. The item at slot 0 was overwritten and the tail has not moved.
\<close>

theorem wrapped_write_persists_wrong_head:
  "LFRingWrite 5
     \<lparr>nvs_up = True, nvs = persisted 0 0 1 5, root_ok = True, bin_file = Some [], trace = []\<rparr>
     \<lparr>head = 0, tail = 0, item_size = 1, item_num = 5\<rparr> [1, 2, 3] 3
   = Some (3, \<lparr>nvs_up = True, nvs = persisted 3 0 1 5, root_ok = True,
                bin_file = Some [1, 2, 3], trace = [BlockWrite 0 3]\<rparr>,
           \<lparr>head = 3, tail = 0, item_size = 1, item_num = 5\<rparr>) \<and>
   LFRingWrite 5
     \<lparr>nvs_up = True, nvs = persisted 3 0 1 5, root_ok = True, bin_file = Some [1, 2, 3],
        trace = [BlockWrite 0 3]\<rparr>
     \<lparr>head = 3, tail = 0, item_size = 1, item_num = 5\<rparr> [4, 5, 6] 3
   = Some (3, \<lparr>nvs_up = True, nvs = persisted 3 0 1 5, root_ok = True,
                bin_file = Some [6, 2, 3, 4, 5],
                trace = [BlockWrite 0 3, BlockWrite 3 2, BlockWrite 0 1]\<rparr>,
           \<lparr>head = 3, tail = 0, item_size = 1, item_num = 5\<rparr>) \<and>
   (3 + 3) mod 5 = (1 :: u32)"
  by (simp add: lfring_defs)

text \<open>
  C2. With \<open>used_before = (head - tail + N) mod N\<close> taken from the head before the
  write, the tail should advance by \<open>used_before + written - (N - 1)\<close> when that is
  positive; in particular \<open>N - 1\<close> items and then \<open>E\<close> more should evict the \<open>E\<close>
  oldest. The code does not do so when the write wraps: with \<open>N = 5\<close>, four items are
  written, then \<open>E = 2\<close> more. The occupancy is computed after \<^verbatim>\<open>meta->head = 0\<close>, as
  \<open>0 - 0 = 0\<close> where it was 4, so nothing is evicted: the persisted tail stays 0 where
  \<open>(0 + 2) mod 5 = 2\<close> is due (and the head is 2 where 1 is due).
\<close>

theorem wrapped_write_skips_eviction:
  "LFRingWrite 5
     \<lparr>nvs_up = True, nvs = persisted 0 0 1 5, root_ok = True, bin_file = Some [], trace = []\<rparr>
     \<lparr>head = 0, tail = 0, item_size = 1, item_num = 5\<rparr> [1, 2, 3, 4] 4
   = Some (4, \<lparr>nvs_up = True, nvs = persisted 4 0 1 5, root_ok = True,
                bin_file = Some [1, 2, 3, 4], trace = [BlockWrite 0 4]\<rparr>,
           \<lparr>head = 4, tail = 0, item_size = 1, item_num = 5\<rparr>) \<and>
   LFRingWrite 5
     \<lparr>nvs_up = True, nvs = persisted 4 0 1 5, root_ok = True, bin_file = Some [1, 2, 3, 4],
        trace = [BlockWrite 0 4]\<rparr>
     \<lparr>head = 4, tail = 0, item_size = 1, item_num = 5\<rparr> [5, 6] 2
   = Some (2, \<lparr>nvs_up = True, nvs = persisted 2 0 1 5, root_ok = True,
                bin_file = Some [6, 2, 3, 4, 5],
                trace = [BlockWrite 0 4, BlockWrite 4 1, BlockWrite 0 1]\<rparr>,
           \<lparr>head = 2, tail = 0, item_size = 1, item_num = 5\<rparr>) \<and>
   (4 - 0 + 5) mod 5 + 2 - (5 - 1) = (2 :: u32)"
  by (simp add: lfring_defs word_le_nat_alt)

section \<open>Requests beyond the usable capacity\<close>

text \<open>
  C3, as stated: a write of \<open>count \<ge> N - 1\<close> items fails with the capacity error and
  leaves head and tail as they were. The guard of the code is \<^verbatim>\<open>num > meta->item_num-1\<close>,
  so a request of exactly \<open>N - 1\<close> items is accepted: with \<open>N = 5\<close>, four items are
  written to the empty buffer, 4 is returned and the persisted head becomes 4.
\<close>

theorem write_of_usable_capacity_accepted:
  "(4 :: u32) \<ge> 5 - 1 \<and>
   LFRingWrite 5
     \<lparr>nvs_up = True, nvs = persisted 0 0 1 5, root_ok = True, bin_file = Some [], trace = []\<rparr>
     \<lparr>head = 0, tail = 0, item_size = 1, item_num = 5\<rparr> [1, 2, 3, 4] 4
   = Some (4, \<lparr>nvs_up = True, nvs = persisted 4 0 1 5, root_ok = True,
                bin_file = Some [1, 2, 3, 4], trace = [BlockWrite 0 4]\<rparr>,
           \<lparr>head = 4, tail = 0, item_size = 1, item_num = 5\<rparr>)"
  by (simp add: lfring_defs)

text \<open>
  C3, amended: on a buffer of capacity \<open>N \<ge> 1\<close>, a write of \<open>count \<ge> N\<close> items (more
  than the \<open>N - 1\<close> usable slots) returns \<^verbatim>\<open>-LFRB_ENUM_EXCEED\<close>; nothing is written and
  nothing is persisted: the environment is the one before the call. \<open>m\<close> is the metadata
  after the reload that opens the call.
\<close>

theorem LFRingWrite_rejects_above_usable:
  assumes "load_ringbuf_meta e m0 = (st, m)" and "item_num m \<noteq> 0" and "item_num m \<le> num"
  shows "LFRingWrite ee e m0 data num = Some (- ee, e, m)"
proof -
  have "item_num m - 1 < item_num m" using assms(2) by (rule word_pred_less)
  with assms(3) have "item_num m - 1 < num" by simp
  with assms(1) show ?thesis by (simp add: LFRingWrite_def)
qed

text \<open>Five items offered to a buffer of five slots that holds one item.\<close>

theorem LFRingWrite_rejects_above_usable_witness:
  "load_ringbuf_meta
     \<lparr>nvs_up = True, nvs = persisted 2 1 1 5, root_ok = True, bin_file = Some [0, 7],
        trace = []\<rparr>
     \<lparr>head = 0, tail = 0, item_size = 1, item_num = 5\<rparr>
   = (0, \<lparr>head = 2, tail = 1, item_size = 1, item_num = 5\<rparr>) \<and>
   (5 :: u32) \<noteq> 0 \<and> (5 :: u32) \<le> 5 \<and>
   LFRingWrite 5
     \<lparr>nvs_up = True, nvs = persisted 2 1 1 5, root_ok = True, bin_file = Some [0, 7],
        trace = []\<rparr>
     \<lparr>head = 0, tail = 0, item_size = 1, item_num = 5\<rparr> [1, 2, 3, 4, 5] 5
   = Some (- 5,
       \<lparr>nvs_up = True, nvs = persisted 2 1 1 5, root_ok = True, bin_file = Some [0, 7],
          trace = []\<rparr>,
       \<lparr>head = 2, tail = 1, item_size = 1, item_num = 5\<rparr>)"
  using LFRingWrite_rejects_above_usable [of
      "\<lparr>nvs_up = True, nvs = persisted 2 1 1 5, root_ok = True, bin_file = Some [0, 7],
         trace = []\<rparr>"
      "\<lparr>head = 0, tail = 0, item_size = 1, item_num = 5\<rparr>" 0
      "\<lparr>head = 2, tail = 1, item_size = 1, item_num = 5\<rparr>" 5 5 "[1, 2, 3, 4, 5]"]
  by (simp add: load_ringbuf_meta_def nvs_get_u32_def persisted_def status_defs)

section \<open>First in, first out\<close>

text \<open>
  One write that fits: the state after \<open>h\<close> items takes \<open>k\<close> more, as long as
  \<open>h + k\<close> stays within the \<open>N - 1\<close> usable slots. The block is written at the end
  of the file in one piece, nothing is evicted, and \<open>k\<close> is returned.
\<close>

lemma fifo_write_step:
  assumes inv: "fifo_inv sz n h f e m"
    and room: "unat h + unat k \<le> unat n - 1"
    and n0: "n \<noteq> 0" and sz0: "sz \<noteq> 0"
    and bytes: "unat n * unat sz < 2 ^ 31"
    and len: "length d = unat sz * unat k"
  shows "\<exists>e' m'. LFRingWrite ee e m d k = Some (int (unat k), e', m') \<and>
           fifo_inv sz n (h + k) (f @ d) e' m' \<and> unat (h + k) = unat h + unat k"
proof -
  let ?m = "m\<lparr>head := h, tail := 0\<rparr>"
  from inv have up: "nvs_up e" and root: "root_ok e" and pers: "nvs e = persisted h 0 sz n"
    and fl: "bin_file e = Some f" and isz: "item_size m = sz" and inum: "item_num m = n"
    and flen: "length f = unat h * unat sz"
    by (simp_all add: fifo_inv_def)
  have npos: "0 < unat n" using n0 by (rule unat_nonzero)
  have szpos: "0 < unat sz" using sz0 by (rule unat_nonzero)
  have nlt: "unat n < 2 ^ 31"
  proof -
    have "unat n \<le> unat n * unat sz" using szpos by simp
    then show ?thesis using bytes by (rule le_less_trans)
  qed
  have hk: "unat h + unat k < unat n" using room npos by simp
  then have hk32: "unat h + unat k < 2 ^ 32" using nlt by simp
  have sum: "unat (h + k) = unat h + unat k" using hk32 by (rule unat_add_small)
  have load: "load_ringbuf_meta e m = (0, ?m)" using up pers by (rule load_persisted)
  have pred: "unat (n - 1) = unat n - 1" using n0 by (rule unat_pred)
  have g1: "\<not> n - 1 < k" using room by (simp add: word_less_nat_alt pred)
  have hn: "h \<le> n" using hk by (simp add: word_le_nat_alt)
  have g2: "k \<le> n - h" using hk hn by (simp add: word_le_nat_alt unat_sub)
  have "unat h \<le> unat n" using hk by simp
  then have "unat h * unat sz \<le> unat n * unat sz" by (rule mult_le_mono1)
  then have "unat h * unat sz < 2 ^ 31" using bytes by (rule le_less_trans)
  then have "unat h * unat sz < 2 ^ 32" by simp
  then have pos: "unat (h * sz) = length f" using flen by (simp add: unat_mult_small)
  have co: "can_open (e\<lparr>trace := trace e @ [BlockWrite h k]\<rparr>)"
    using root fl by (simp add: can_open_def)
  have rw: "ringbuf_write e ?m d k =
      (k, e\<lparr>trace := trace e @ [BlockWrite h k], bin_file := Some (f @ d)\<rparr>, ?m)"
    using co fl isz sz0 len pos
    by (simp add: ringbuf_write_def Let_def fwrite_items_def write_at_end)
  have md: "(h + k) mod n = h + k" using hk sum by (intro word_mod_small) simp
  have g3: "\<not> n - 1 < h + k" using room sum by (simp add: word_less_nat_alt pred)
  have klt: "unat k < 2 ^ 31" using hk nlt by simp
  have wu: "write_update (e\<lparr>trace := trace e @ [BlockWrite h k], bin_file := Some (f @ d)\<rparr>)
              ?m k
      = Some (int (unat k),
          e\<lparr>trace := trace e @ [BlockWrite h k], bin_file := Some (f @ d),
             nvs := persisted (h + k) 0 sz n\<rparr>, ?m\<lparr>head := h + k\<rparr>)"
    using n0 inum isz up md g3 sint_small [OF klt]
    by (simp add: write_update_def Let_def save_cases)
  have "LFRingWrite ee e m d k = Some (int (unat k),
          e\<lparr>trace := trace e @ [BlockWrite h k], bin_file := Some (f @ d),
             nvs := persisted (h + k) 0 sz n\<rparr>, ?m\<lparr>head := h + k\<rparr>)"
    using load g1 g2 rw wu inum by (simp add: LFRingWrite_def)
  moreover have "fifo_inv sz n (h + k) (f @ d)
       (e\<lparr>trace := trace e @ [BlockWrite h k], bin_file := Some (f @ d),
             nvs := persisted (h + k) 0 sz n\<rparr>) (?m\<lparr>head := h + k\<rparr>)"
    using up root isz inum flen len sum
    by (simp add: fifo_inv_def algebra_simps)
  ultimately show ?thesis using sum by blast
qed

text \<open>Any number of such writes, by induction on the list of requests.\<close>

lemma fifo_write_seq:
  assumes "fifo_inv sz n h f e m"
    and "unat h + sum_list (map (\<lambda>w. unat (snd w)) ws) \<le> unat n - 1"
    and "n \<noteq> 0" and "sz \<noteq> 0" and "unat n * unat sz < 2 ^ 31"
    and "\<forall>(d, k) \<in> set ws. length d = unat sz * unat k"
  shows "\<exists>e' m' h'.
           LFRingWrite_seq ee e m ws = Some (map (\<lambda>w. int (unat (snd w))) ws, e', m') \<and>
           fifo_inv sz n h' (f @ concat (map fst ws)) e' m' \<and>
           unat h' = unat h + sum_list (map (\<lambda>w. unat (snd w)) ws)"
  using assms
proof (induction ws arbitrary: e m h f)
  case Nil
  then show ?case by auto
next
  case (Cons w ws)
  obtain d k where w: "w = (d, k)" by (cases w)
  from Cons.prems(2) w have room: "unat h + unat k \<le> unat n - 1" by simp
  from Cons.prems(6) w have len: "length d = unat sz * unat k" by simp
  from fifo_write_step [OF Cons.prems(1) room Cons.prems(3,4,5) len, of ee]
  obtain e1 m1 where
    step: "LFRingWrite ee e m d k = Some (int (unat k), e1, m1)"
    and inv1: "fifo_inv sz n (h + k) (f @ d) e1 m1"
    and sum: "unat (h + k) = unat h + unat k"
    by blast
  have room': "unat (h + k) + sum_list (map (\<lambda>w. unat (snd w)) ws) \<le> unat n - 1"
    using Cons.prems(2) w sum by simp
  have lens': "\<forall>(d, k) \<in> set ws. length d = unat sz * unat k"
    using Cons.prems(6) by simp
  from Cons.IH [OF inv1 room' Cons.prems(3,4,5) lens']
  obtain e' m' h' where
    rest: "LFRingWrite_seq ee e1 m1 ws = Some (map (\<lambda>w. int (unat (snd w))) ws, e', m')"
    and inv': "fifo_inv sz n h' ((f @ d) @ concat (map fst ws)) e' m'"
    and sum': "unat h' = unat (h + k) + sum_list (map (\<lambda>w. unat (snd w)) ws)"
    by blast
  show ?case using w step rest inv' sum' sum by auto
qed

text \<open>Reading \<open>h\<close> items back from such a state returns the whole file.\<close>

lemma fifo_read_all:
  assumes inv: "fifo_inv sz n h f e m"
    and hn: "unat h < unat n" and sz0: "sz \<noteq> 0" and bytes: "unat n * unat sz < 2 ^ 31"
  shows "\<exists>e' m'. LFRingRead e m h = Some (int (unat h), f, e', m')"
proof -
  let ?m = "m\<lparr>head := h, tail := 0\<rparr>"
  from inv have up: "nvs_up e" and root: "root_ok e" and pers: "nvs e = persisted h 0 sz n"
    and fl: "bin_file e = Some f" and isz: "item_size m = sz" and inum: "item_num m = n"
    and flen: "length f = unat h * unat sz"
    by (simp_all add: fifo_inv_def)
  have load: "load_ringbuf_meta e m = (0, ?m)" using up pers by (rule load_persisted)
  show ?thesis
  proof (cases "h = 0")
    case True
    then show ?thesis using load flen by (simp add: LFRingRead_def)
  next
    case False
    have szpos: "0 < unat sz" using sz0 by (rule unat_nonzero)
    have n0: "n \<noteq> 0" using hn by auto
    have "unat n \<le> unat n * unat sz" using szpos by simp
    then have nlt: "unat n < 2 ^ 31" using bytes by (rule le_less_trans)
    have hlt: "unat h < 2 ^ 31" using hn nlt by simp
    have cnt: "fread_items 0 sz h f = unat h"
      using sz0 szpos flen by (simp add: fread_items_def)
    have rr: "ringbuf_read e ?m h = (h, f, e\<lparr>trace := trace e @ [BlockRead 0 h]\<rparr>, ?m)"
      using root fl isz cnt flen
      by (simp add: ringbuf_read_def can_open_def Let_def)
    show ?thesis using load False rr inum n0 sint_small [OF hlt]
      by (simp add: LFRingRead_def save_cases Let_def)
  qed
qed

text \<open>A successful \<^verbatim>\<open>LFRingInit\<close> with nothing persisted before starts the sequence.\<close>

lemma init_fresh:
  assumes "nvs e = None" and "LFRingInit e m0 sz n = (0, e1, m1)"
  shows "fifo_inv sz n 0 [] e1 m1"
  using assms
  by (auto simp: LFRingInit_def init_ringbuf_meta_def reset_meta_cases init_ringbuf_lfs_def
      reset_lfs_cases fifo_inv_def status_defs Let_def split: if_splits)

text \<open>
  C4. The buffer is initialised with nothing persisted before (\<open>nvs e = None\<close>, and
  \<^verbatim>\<open>LFRingInit\<close> returns 0). The caller then writes the requests \<open>ws\<close>, each a buffer
  of \<open>k\<close> items of \<open>sz\<close> bytes, with at most \<open>N - 1\<close> items in total. Every write
  returns its count, and a read of the total number of items returns that number and
  the bytes of all requests in the order they were written. The item size is not 0 and
  the \<open>N\<close> slots take less than \<open>2 ^ 31\<close> bytes, so that counts and file offsets are
  non-negative as \<^verbatim>\<open>int\<close> and \<^verbatim>\<open>long\<close>.
\<close>

theorem fifo_round_trip:
  assumes fresh: "nvs e = None" and init: "LFRingInit e m0 sz n = (0, e1, m1)"
    and n0: "n \<noteq> 0" and sz0: "sz \<noteq> 0" and bytes: "unat n * unat sz < 2 ^ 31"
    and lens: "\<forall>(d, k) \<in> set ws. length d = unat sz * unat k"
    and total: "sum_list (map (\<lambda>w. unat (snd w)) ws) \<le> unat n - 1"
  shows "\<exists>e2 m2 e3 m3.
           LFRingWrite_seq ee e1 m1 ws = Some (map (\<lambda>w. int (unat (snd w))) ws, e2, m2) \<and>
           LFRingRead e2 m2 (word_of_nat (sum_list (map (\<lambda>w. unat (snd w)) ws)))
             = Some (int (sum_list (map (\<lambda>w. unat (snd w)) ws)), concat (map fst ws),
                     e3, m3)"
proof -
  have inv0: "fifo_inv sz n 0 [] e1 m1" using fresh init by (rule init_fresh)
  have room: "unat (0::u32) + sum_list (map (\<lambda>w. unat (snd w)) ws) \<le> unat n - 1"
    using total by simp
  from fifo_write_seq [OF inv0 room n0 sz0 bytes lens, of ee]
  obtain e2 m2 h where
    ws: "LFRingWrite_seq ee e1 m1 ws = Some (map (\<lambda>w. int (unat (snd w))) ws, e2, m2)"
    and inv2: "fifo_inv sz n h ([] @ concat (map fst ws)) e2 m2"
    and h: "unat h = unat (0::u32) + sum_list (map (\<lambda>w. unat (snd w)) ws)"
    by blast
  have hs: "unat h = sum_list (map (\<lambda>w. unat (snd w)) ws)" using h by simp
  have "0 < unat n" using n0 by (rule unat_nonzero)
  then have hn: "unat h < unat n" using total hs by simp
  from fifo_read_all [OF inv2 hn sz0 bytes]
  obtain e3 m3 where
    "LFRingRead e2 m2 h = Some (int (unat h), [] @ concat (map fst ws), e3, m3)"
    by blast
  moreover have "word_of_nat (sum_list (map (\<lambda>w. unat (snd w)) ws)) = h"
    using hs [symmetric] by simp
  ultimately show ?thesis using ws hs by auto
qed

text \<open>
  Five slots of two bytes; one item, then two, then one are written: four items, the
  usable capacity.
\<close>

theorem fifo_round_trip_witness:
  "LFRingInit
     \<lparr>nvs_up = True, nvs = None, root_ok = True, bin_file = Some [9, 9, 9], trace = []\<rparr>
     \<lparr>head = 0, tail = 0, item_size = 0, item_num = 0\<rparr> 2 5
   = (0, \<lparr>nvs_up = True, nvs = persisted 0 0 2 5, root_ok = True, bin_file = Some [],
           trace = []\<rparr>,
      \<lparr>head = 0, tail = 0, item_size = 2, item_num = 5\<rparr>) \<and>
   (\<exists>e2 m2 e3 m3.
      LFRingWrite_seq 5
        \<lparr>nvs_up = True, nvs = persisted 0 0 2 5, root_ok = True, bin_file = Some [],
           trace = []\<rparr>
        \<lparr>head = 0, tail = 0, item_size = 2, item_num = 5\<rparr>
        [([1, 2], 1), ([3, 4, 5, 6], 2), ([7, 8], 1)]
      = Some ([1, 2, 1], e2, m2) \<and>
      LFRingRead e2 m2 4 = Some (4, [1, 2, 3, 4, 5, 6, 7, 8], e3, m3))"
proof -
  have init: "LFRingInit
     \<lparr>nvs_up = True, nvs = None, root_ok = True, bin_file = Some [9, 9, 9], trace = []\<rparr>
     \<lparr>head = 0, tail = 0, item_size = 0, item_num = 0\<rparr> 2 5
   = (0, \<lparr>nvs_up = True, nvs = persisted 0 0 2 5, root_ok = True, bin_file = Some [],
           trace = []\<rparr>,
      \<lparr>head = 0, tail = 0, item_size = 2, item_num = 5\<rparr>)"
    by (simp add: lfring_defs)
  have fresh: "nvs \<lparr>nvs_up = True, nvs = None, root_ok = True, bin_file = Some [9, 9, 9],
                    trace = []\<rparr> = None"
    by simp
  have lens: "\<forall>(d, k) \<in> set [([1, 2], 1), ([3, 4, 5, 6], 2), ([7, 8 :: byte], 1 :: u32)].
                length d = unat (2 :: u32) * unat k"
    by simp
  have total: "sum_list (map (\<lambda>w. unat (snd w))
                 [([1, 2], 1), ([3, 4, 5, 6], 2), ([7, 8 :: byte], 1 :: u32)])
               \<le> unat (5 :: u32) - 1"
    by simp
  from fifo_round_trip [OF fresh init _ _ _ lens total, of 5]
  show ?thesis using init by simp
qed

section \<open>Block operations issued\<close>

text \<open>
  C5. An accepted write (\<open>num \<le> N - 1\<close>) of \<open>num\<close> items at head \<open>h\<close>, with
  \<open>space = N - h\<close>: when \<open>num \<le> space\<close> the engine calls the block layer once, for
  \<open>num\<close> items at slot \<open>h\<close>; otherwise twice, for \<open>space\<close> items at slot \<open>h\<close> and
  then for \<open>num - space\<close> items at slot 0. \<open>m\<close> is the metadata after the reload that
  opens the call, and \<open>N \<noteq> 0\<close>, so that the call returns. The difference \<open>N - h\<close> is
  the one of the code, on 32-bit words; it is the difference of the numbers when
  \<open>h \<le> N\<close>.
\<close>

theorem LFRingWrite_block_writes:
  assumes "load_ringbuf_meta e m0 = (st, m)" and "num \<le> item_num m - 1" and "item_num m \<noteq> 0"
  shows "\<exists>r e' m'. LFRingWrite ee e m0 data num = Some (r, e', m') \<and>
           trace e' = trace e @
             (if num \<le> item_num m - head m then [BlockWrite (head m) num]
              else [BlockWrite (head m) (item_num m - head m),
                    BlockWrite 0 (num - (item_num m - head m))])"
proof (cases "num \<le> item_num m - head m")
  case True
  obtain r e1 m1 where w: "ringbuf_write e m data num = (r, e1, m1)"
    by (metis prod_cases3)
  from ringbuf_write_frame [OF w] assms(3)
  have "item_num m1 \<noteq> 0" and t: "trace e1 = trace e @ [BlockWrite (head m) num]"
    by simp_all
  from write_update_trace [OF this(1), of e1 "0 + r"] t
  show ?thesis using True assms(1,2) w
    by (auto simp: LFRingWrite_def not_less)
next
  case False
  let ?k = "item_num m - head m"
  obtain r1 e1 m1 where w1: "ringbuf_write e m data ?k = (r1, e1, m1)"
    by (metis prod_cases3)
  obtain r2 e2 m3 where w2: "ringbuf_write e1 (m1\<lparr>head := 0\<rparr>)
       (drop (unat (?k * item_size (m1\<lparr>head := 0\<rparr>))) data) (num - ?k) = (r2, e2, m3)"
    by (metis prod_cases3)
  from ringbuf_write_frame [OF w1] ringbuf_write_frame [OF w2] assms(3)
  have "item_num m3 \<noteq> 0"
    and t: "trace e2 = trace e @ [BlockWrite (head m) ?k, BlockWrite 0 (num - ?k)]"
    by simp_all
  from write_update_trace [OF this(1), of e2 "0 + r1 + r2"] t
  show ?thesis using False assms(1,2) w1 w2
    by (auto simp: LFRingWrite_def not_less Let_def)
qed

text \<open>Three items at head 3 of five slots: two at slot 3, one at slot 0.\<close>

theorem LFRingWrite_block_writes_witness:
  "load_ringbuf_meta
     \<lparr>nvs_up = True, nvs = persisted 3 0 1 5, root_ok = True, bin_file = Some [1, 2, 3],
        trace = []\<rparr>
     \<lparr>head = 0, tail = 0, item_size = 1, item_num = 5\<rparr>
   = (0, \<lparr>head = 3, tail = 0, item_size = 1, item_num = 5\<rparr>) \<and>
   (3 :: u32) \<le> 5 - 1 \<and> (5 :: u32) \<noteq> 0 \<and>
   (\<exists>r e' m'.
      LFRingWrite 5
        \<lparr>nvs_up = True, nvs = persisted 3 0 1 5, root_ok = True, bin_file = Some [1, 2, 3],
           trace = []\<rparr>
        \<lparr>head = 0, tail = 0, item_size = 1, item_num = 5\<rparr> [4, 5, 6] 3
      = Some (r, e', m') \<and>
      trace e' = [BlockWrite 3 2, BlockWrite 0 1])"
  using LFRingWrite_block_writes [of
      "\<lparr>nvs_up = True, nvs = persisted 3 0 1 5, root_ok = True, bin_file = Some [1, 2, 3],
         trace = []\<rparr>"
      "\<lparr>head = 0, tail = 0, item_size = 1, item_num = 5\<rparr>" 0
      "\<lparr>head = 3, tail = 0, item_size = 1, item_num = 5\<rparr>" 3 5 "[4, 5, 6]"]
  by (simp add: load_ringbuf_meta_def nvs_get_u32_def persisted_def status_defs)

text \<open>
  C6, as stated: a read on a non-empty buffer issues one block read of \<open>min(count, N)\<close>
  items at the tail and, when \<open>tail + count > N\<close>, returns fewer items than are
  logically available. With \<open>N = 5\<close>, four items are written and seven are requested:
  the block read is issued for 7 items, not for \<open>min 7 5 = 5\<close>; it returns the four
  items of the file, which is all \<open>(4 - 0 + 5) mod 5 = 4\<close> that are available, not
  fewer.
\<close>

theorem read_requests_count_not_min:
  "LFRingWrite 5
     \<lparr>nvs_up = True, nvs = persisted 0 0 1 5, root_ok = True, bin_file = Some [], trace = []\<rparr>
     \<lparr>head = 0, tail = 0, item_size = 1, item_num = 5\<rparr> [1, 2, 3, 4] 4
   = Some (4, \<lparr>nvs_up = True, nvs = persisted 4 0 1 5, root_ok = True,
                bin_file = Some [1, 2, 3, 4], trace = [BlockWrite 0 4]\<rparr>,
           \<lparr>head = 4, tail = 0, item_size = 1, item_num = 5\<rparr>) \<and>
   LFRingRead
     \<lparr>nvs_up = True, nvs = persisted 4 0 1 5, root_ok = True, bin_file = Some [1, 2, 3, 4],
        trace = [BlockWrite 0 4]\<rparr>
     \<lparr>head = 4, tail = 0, item_size = 1, item_num = 5\<rparr> 7
   = Some (4, [1, 2, 3, 4],
           \<lparr>nvs_up = True, nvs = persisted 4 4 1 5, root_ok = True,
              bin_file = Some [1, 2, 3, 4], trace = [BlockWrite 0 4, BlockRead 0 7]\<rparr>,
           \<lparr>head = 4, tail = 4, item_size = 1, item_num = 5\<rparr>) \<and>
   BlockRead 0 7 \<noteq> BlockRead 0 (min 7 5) \<and> (4 - 0 + 5) mod 5 = (4 :: u32)"
  by (simp add: lfring_defs)

text \<open>
  C6, amended: a read of \<open>num\<close> items on a non-empty buffer whose file can be opened
  issues one block read, for \<open>num\<close> items (the request is not capped at \<open>N\<close>) at slot
  \<open>tail\<close>, never split at the wrap boundary. It yields the \<open>n\<close> complete items that the
  file holds from the byte offset of the tail on, at most \<open>num\<close>: the read stops at the
  end of the file, whatever the number of items logically available. Then
  \<open>tail' = (tail + n) mod N\<close>, the metadata is saved, and \<open>n\<close> is returned. \<open>N\<close> and
  the item size are not 0 and the byte offset of the tail is below \<open>2 ^ 31\<close>.
\<close>

theorem LFRingRead_single_block_read:
  assumes load: "load_ringbuf_meta e m0 = (st, m)"
    and nonempty: "tail m \<noteq> head m"
    and root: "root_ok e" and fl: "bin_file e = Some f"
    and n0: "item_num m \<noteq> 0" and sz0: "item_size m \<noteq> 0"
    and off: "unat (tail m) * unat (item_size m) < 2 ^ 31"
  shows "let pos = unat (tail m) * unat (item_size m);
             n = min (unat num) ((length f - pos) div unat (item_size m));
             t' = (tail m + word_of_nat n) mod item_num m
         in LFRingRead e m0 num =
              Some (sint (word_of_nat n :: u32),
                    take (n * unat (item_size m)) (drop pos f),
                    e\<lparr>trace := trace e @ [BlockRead (tail m) num],
                      nvs := (if nvs_up e
                              then persisted (head m) t' (item_size m) (item_num m)
                              else nvs e)\<rparr>,
                    m\<lparr>tail := t'\<rparr>)"
proof -
  have "unat (tail m) * unat (item_size m) < 2 ^ 32"
    using off by (rule less_trans) simp
  then have pos: "unat (tail m * item_size m) = unat (tail m) * unat (item_size m)"
    by (rule unat_mult_small)
  have rr: "ringbuf_read e m num =
      (word_of_nat (fread_items (unat (tail m) * unat (item_size m)) (item_size m) num f),
       take (fread_items (unat (tail m) * unat (item_size m)) (item_size m) num f
               * unat (item_size m))
         (drop (unat (tail m) * unat (item_size m)) f),
       e\<lparr>trace := trace e @ [BlockRead (tail m) num]\<rparr>, m)"
    using root fl pos by (simp add: ringbuf_read_def can_open_def Let_def)
  show ?thesis
    using load nonempty rr n0 sz0 fl
    by (simp add: LFRingRead_def Let_def save_cases fread_items_def)
qed

text \<open>
  A state in which the file holds more than is logically available: on the fresh buffer
  of five slots, four items are written and read, a fifth is written and read, and a
  sixth is written, at slot 0. One item is available (head 1, tail 0) and slots 1 to 4
  still hold old items.
\<close>

lemma stale_items_reachable:
  "LFRingWrite 5
     \<lparr>nvs_up = True, nvs = persisted 0 0 1 5, root_ok = True, bin_file = Some [], trace = []\<rparr>
     \<lparr>head = 0, tail = 0, item_size = 1, item_num = 5\<rparr> [1, 2, 3, 4] 4
   = Some (4, \<lparr>nvs_up = True, nvs = persisted 4 0 1 5, root_ok = True,
                bin_file = Some [1, 2, 3, 4], trace = [BlockWrite 0 4]\<rparr>,
           \<lparr>head = 4, tail = 0, item_size = 1, item_num = 5\<rparr>) \<and>
   LFRingRead
     \<lparr>nvs_up = True, nvs = persisted 4 0 1 5, root_ok = True, bin_file = Some [1, 2, 3, 4],
        trace = [BlockWrite 0 4]\<rparr>
     \<lparr>head = 4, tail = 0, item_size = 1, item_num = 5\<rparr> 4
   = Some (4, [1, 2, 3, 4],
           \<lparr>nvs_up = True, nvs = persisted 4 4 1 5, root_ok = True,
              bin_file = Some [1, 2, 3, 4], trace = [BlockWrite 0 4, BlockRead 0 4]\<rparr>,
           \<lparr>head = 4, tail = 4, item_size = 1, item_num = 5\<rparr>) \<and>
   LFRingWrite 5
     \<lparr>nvs_up = True, nvs = persisted 4 4 1 5, root_ok = True, bin_file = Some [1, 2, 3, 4],
        trace = [BlockWrite 0 4, BlockRead 0 4]\<rparr>
     \<lparr>head = 4, tail = 4, item_size = 1, item_num = 5\<rparr> [5] 1
   = Some (1, \<lparr>nvs_up = True, nvs = persisted 0 4 1 5, root_ok = True,
                bin_file = Some [1, 2, 3, 4, 5],
                trace = [BlockWrite 0 4, BlockRead 0 4, BlockWrite 4 1]\<rparr>,
           \<lparr>head = 0, tail = 4, item_size = 1, item_num = 5\<rparr>) \<and>
   LFRingRead
     \<lparr>nvs_up = True, nvs = persisted 0 4 1 5, root_ok = True,
        bin_file = Some [1, 2, 3, 4, 5],
        trace = [BlockWrite 0 4, BlockRead 0 4, BlockWrite 4 1]\<rparr>
     \<lparr>head = 0, tail = 4, item_size = 1, item_num = 5\<rparr> 1
   = Some (1, [5],
           \<lparr>nvs_up = True, nvs = persisted 0 0 1 5, root_ok = True,
              bin_file = Some [1, 2, 3, 4, 5],
              trace = [BlockWrite 0 4, BlockRead 0 4, BlockWrite 4 1, BlockRead 4 1]\<rparr>,
           \<lparr>head = 0, tail = 0, item_size = 1, item_num = 5\<rparr>) \<and>
   LFRingWrite 5
     \<lparr>nvs_up = True, nvs = persisted 0 0 1 5, root_ok = True,
        bin_file = Some [1, 2, 3, 4, 5],
        trace = [BlockWrite 0 4, BlockRead 0 4, BlockWrite 4 1, BlockRead 4 1]\<rparr>
     \<lparr>head = 0, tail = 0, item_size = 1, item_num = 5\<rparr> [6] 1
   = Some (1, \<lparr>nvs_up = True, nvs = persisted 1 0 1 5, root_ok = True,
                bin_file = Some [6, 2, 3, 4, 5],
                trace = [BlockWrite 0 4, BlockRead 0 4, BlockWrite 4 1, BlockRead 4 1,
                         BlockWrite 0 1]\<rparr>,
           \<lparr>head = 1, tail = 0, item_size = 1, item_num = 5\<rparr>)"
  by (simp add: lfring_defs)

text \<open>
  In that state seven items are requested: the block read is issued for seven items and
  the five of the file are returned, the one that is available and four old ones. The
  tail becomes \<open>(0 + 5) mod 5 = 0\<close>.
\<close>

theorem LFRingRead_single_block_read_witness:
  "load_ringbuf_meta
     \<lparr>nvs_up = True, nvs = persisted 1 0 1 5, root_ok = True,
        bin_file = Some [6, 2, 3, 4, 5],
        trace = [BlockWrite 0 4, BlockRead 0 4, BlockWrite 4 1, BlockRead 4 1,
                 BlockWrite 0 1]\<rparr>
     \<lparr>head = 1, tail = 0, item_size = 1, item_num = 5\<rparr>
   = (0, \<lparr>head = 1, tail = 0, item_size = 1, item_num = 5\<rparr>) \<and>
   LFRingRead
     \<lparr>nvs_up = True, nvs = persisted 1 0 1 5, root_ok = True,
        bin_file = Some [6, 2, 3, 4, 5],
        trace = [BlockWrite 0 4, BlockRead 0 4, BlockWrite 4 1, BlockRead 4 1,
                 BlockWrite 0 1]\<rparr>
     \<lparr>head = 1, tail = 0, item_size = 1, item_num = 5\<rparr> 7
   = Some (5, [6, 2, 3, 4, 5],
           \<lparr>nvs_up = True, nvs = persisted 1 0 1 5, root_ok = True,
              bin_file = Some [6, 2, 3, 4, 5],
              trace = [BlockWrite 0 4, BlockRead 0 4, BlockWrite 4 1, BlockRead 4 1,
                       BlockWrite 0 1, BlockRead 0 7]\<rparr>,
           \<lparr>head = 1, tail = 0, item_size = 1, item_num = 5\<rparr>)"
  using LFRingRead_single_block_read [of
      "\<lparr>nvs_up = True, nvs = persisted 1 0 1 5, root_ok = True,
         bin_file = Some [6, 2, 3, 4, 5],
         trace = [BlockWrite 0 4, BlockRead 0 4, BlockWrite 4 1, BlockRead 4 1,
                  BlockWrite 0 1]\<rparr>"
      "\<lparr>head = 1, tail = 0, item_size = 1, item_num = 5\<rparr>" 0
      "\<lparr>head = 1, tail = 0, item_size = 1, item_num = 5\<rparr>" "[6, 2, 3, 4, 5]" 7]
  by (simp add: load_ringbuf_meta_def nvs_get_u32_def persisted_def status_defs Let_def)

section \<open>Recovery when the file cannot be opened\<close>

text \<open>
  What \<^verbatim>\<open>ringbuf_write\<close> itself does when the file cannot be opened: the metadata is
  reset and saved, the file is recreated, and the write is retried once, at the offset
  computed from the head before the reset. When the file can still not be opened it
  returns \<^verbatim>\<open>-LFRB_NFILE_ERROR\<close> and leaves the reset state.
\<close>

lemma ringbuf_write_recovers:
  assumes "\<not> can_open e" and "root_ok e"
  shows "ringbuf_write e m data num =
           (fwrite_items (item_size m) num,
            e\<lparr>trace := trace e @ [BlockWrite (head m) num],
              nvs := (if nvs_up e then persisted 0 0 (item_size m) (item_num m) else nvs e),
              bin_file := Some (write_at (unat (head m * item_size m))
                                  (take (unat (item_size m) * unat num) data) [])\<rparr>,
            m\<lparr>head := 0, tail := 0\<rparr>)"
  using assms
  by (simp add: ringbuf_write_def reset_meta_cases reset_lfs_cases can_open_def Let_def)

lemma ringbuf_write_persistent_failure:
  assumes "\<not> root_ok e"
  shows "ringbuf_write e m data num =
           (word_of_int (- LFRB_NFILE_ERROR),
            e\<lparr>trace := trace e @ [BlockWrite (head m) num],
              nvs := (if nvs_up e then persisted 0 0 (item_size m) (item_num m) else nvs e)\<rparr>,
            m\<lparr>head := 0, tail := 0\<rparr>)"
  using assms
  by (simp add: ringbuf_write_def reset_meta_cases reset_lfs_cases can_open_def Let_def)

text \<open>
  C7. When the file can still not be opened after the reset, the write should return the
  file error and leave the reset state (head 0, tail 0) persisted. \<^verbatim>\<open>LFRingWrite\<close>
  does not test what \<^verbatim>\<open>ringbuf_write\<close> returned: it adds the error code to \<open>n\<close> as if
  it were a count of items, advances head and tail by it and saves them. With \<open>N = 5\<close>
  and no root directory, a write of one item returns \<open>-4\<close> and persists head 2 and tail
  3; a write of three items at head 3, which is split, returns \<open>-8\<close>, the sum of two
  error codes, and persists head 3 and tail 4.
\<close>

theorem failed_recovery_persists_garbage:
  "LFRingWrite 5
     \<lparr>nvs_up = True, nvs = persisted 0 0 4 5, root_ok = False, bin_file = None, trace = []\<rparr>
     \<lparr>head = 0, tail = 0, item_size = 4, item_num = 5\<rparr> [1, 2, 3, 4] 1
   = Some (- 4, \<lparr>nvs_up = True, nvs = persisted 2 3 4 5, root_ok = False, bin_file = None,
                  trace = [BlockWrite 0 1]\<rparr>,
           \<lparr>head = 2, tail = 3, item_size = 4, item_num = 5\<rparr>) \<and>
   LFRingWrite 5
     \<lparr>nvs_up = True, nvs = persisted 3 0 1 5, root_ok = False, bin_file = None, trace = []\<rparr>
     \<lparr>head = 3, tail = 0, item_size = 1, item_num = 5\<rparr> [4, 5, 6] 3
   = Some (- 8, \<lparr>nvs_up = True, nvs = persisted 3 4 1 5, root_ok = False, bin_file = None,
                  trace = [BlockWrite 3 2, BlockWrite 0 1]\<rparr>,
           \<lparr>head = 3, tail = 4, item_size = 1, item_num = 5\<rparr>) \<and>
   - LFRB_NFILE_ERROR = - 4"
  by (simp add: lfring_defs)

text \<open>
  C10. A reset during recovery, in \<^verbatim>\<open>ringbuf_write\<close> as in \<^verbatim>\<open>ringbuf_read\<close>, zeroes
  head and tail and nothing else: item size and item number of the metadata are the ones
  before the call, and they are the ones saved with head 0 and tail 0 when NVS can be
  opened.
\<close>

theorem recovery_reset_keeps_size_and_num:
  assumes "\<not> can_open e"
  shows "(case ringbuf_write e m data num of (r, e', m') \<Rightarrow>
            m' = m\<lparr>head := 0, tail := 0\<rparr> \<and>
            item_size m' = item_size m \<and> item_num m' = item_num m \<and>
            nvs e' = (if nvs_up e then persisted 0 0 (item_size m) (item_num m) else nvs e)) \<and>
         (case ringbuf_read e m num of (r, out, e', m') \<Rightarrow>
            m' = m\<lparr>head := 0, tail := 0\<rparr> \<and>
            item_size m' = item_size m \<and> item_num m' = item_num m \<and>
            nvs e' = (if nvs_up e then persisted 0 0 (item_size m) (item_num m) else nvs e))"
  using assms
  by (simp add: ringbuf_write_def ringbuf_read_def reset_meta_cases reset_lfs_cases
      can_open_def Let_def)

text \<open>The file is missing under an existing root: head 3 and tail 1 are zeroed.\<close>

theorem recovery_reset_keeps_size_and_num_witness:
  "\<not> can_open \<lparr>nvs_up = True, nvs = persisted 3 1 4 5, root_ok = True, bin_file = None,
                 trace = []\<rparr> \<and>
   snd (snd (ringbuf_write
     \<lparr>nvs_up = True, nvs = persisted 3 1 4 5, root_ok = True, bin_file = None, trace = []\<rparr>
     \<lparr>head = 3, tail = 1, item_size = 4, item_num = 5\<rparr> [1, 2, 3, 4] 1))
   = \<lparr>head = 0, tail = 0, item_size = 4, item_num = 5\<rparr> \<and>
   nvs (fst (snd (ringbuf_write
     \<lparr>nvs_up = True, nvs = persisted 3 1 4 5, root_ok = True, bin_file = None, trace = []\<rparr>
     \<lparr>head = 3, tail = 1, item_size = 4, item_num = 5\<rparr> [1, 2, 3, 4] 1)))
   = persisted 0 0 4 5 \<and>
   snd (snd (snd (ringbuf_read
     \<lparr>nvs_up = True, nvs = persisted 3 1 4 5, root_ok = True, bin_file = None, trace = []\<rparr>
     \<lparr>head = 3, tail = 1, item_size = 4, item_num = 5\<rparr> 1)))
   = \<lparr>head = 0, tail = 0, item_size = 4, item_num = 5\<rparr> \<and>
   nvs (fst (snd (snd (ringbuf_read
     \<lparr>nvs_up = True, nvs = persisted 3 1 4 5, root_ok = True, bin_file = None, trace = []\<rparr>
     \<lparr>head = 3, tail = 1, item_size = 4, item_num = 5\<rparr> 1))))
   = persisted 0 0 4 5"
  using recovery_reset_keeps_size_and_num [of
      "\<lparr>nvs_up = True, nvs = persisted 3 1 4 5, root_ok = True, bin_file = None,
         trace = []\<rparr>"
      "\<lparr>head = 3, tail = 1, item_size = 4, item_num = 5\<rparr>" "[1, 2, 3, 4]" 1]
  by (simp add: can_open_def split: prod.splits)

section \<open>Initialisation and the empty buffer\<close>

text \<open>
  C8, as stated: \<^verbatim>\<open>LFRingInit\<close> truncates the file for every empty state
  \<open>head = tail\<close>. The test in \<^verbatim>\<open>init_ringbuf_lfs\<close> is
  \<^verbatim>\<open>meta->head == 0 && meta->tail == 0\<close>: with head 3 and tail 3 persisted, the file
  keeps its three bytes.
\<close>

theorem init_keeps_file_of_empty_nonzero_state:
  "LFRingInit
     \<lparr>nvs_up = True, nvs = persisted 3 3 1 5, root_ok = True, bin_file = Some [1, 2, 3],
        trace = []\<rparr>
     \<lparr>head = 0, tail = 0, item_size = 0, item_num = 0\<rparr> 1 5
   = (0,
      \<lparr>nvs_up = True, nvs = persisted 3 3 1 5, root_ok = True, bin_file = Some [1, 2, 3],
         trace = []\<rparr>,
      \<lparr>head = 3, tail = 3, item_size = 1, item_num = 5\<rparr>)"
  by (simp add: lfring_defs)

text \<open>
  C8, amended: at every \<^verbatim>\<open>LFRingInit\<close> that succeeds, the file is created or truncated
  to empty when the loaded or reset metadata has head 0 and tail 0; in every other
  state, the empty ones with \<open>head = tail \<noteq> 0\<close> among them, the file is left as it is.
\<close>

theorem init_truncates_only_at_zero:
  assumes "LFRingInit e m sz n = (st, e', m')" and "0 \<le> st"
  shows "bin_file e' = (if head m' = 0 \<and> tail m' = 0 then Some [] else bin_file e)"
  using assms
  by (auto simp: LFRingInit_def init_ringbuf_meta_def reset_meta_cases init_ringbuf_lfs_def
      reset_lfs_cases status_defs Let_def split: if_splits option.splits prod.splits)

text \<open>
  The persisted item number is 7 and 5 is asked for: the metadata is reset and the file
  truncated.
\<close>

theorem init_truncates_only_at_zero_witness:
  "LFRingInit
     \<lparr>nvs_up = True, nvs = persisted 2 1 1 7, root_ok = True, bin_file = Some [1, 2, 3],
        trace = []\<rparr>
     \<lparr>head = 0, tail = 0, item_size = 0, item_num = 0\<rparr> 1 5
   = (0,
      \<lparr>nvs_up = True, nvs = persisted 0 0 1 5, root_ok = True, bin_file = Some [], trace = []\<rparr>,
      \<lparr>head = 0, tail = 0, item_size = 1, item_num = 5\<rparr>) \<and>
   (0 :: int) \<le> 0 \<and>
   bin_file
     \<lparr>nvs_up = True, nvs = persisted 0 0 1 5, root_ok = True, bin_file = Some [], trace = []\<rparr>
   = Some []"
  using init_truncates_only_at_zero [of
      "\<lparr>nvs_up = True, nvs = persisted 2 1 1 7, root_ok = True, bin_file = Some [1, 2, 3],
         trace = []\<rparr>"
      "\<lparr>head = 0, tail = 0, item_size = 0, item_num = 0\<rparr>" 1 5 0
      "\<lparr>nvs_up = True, nvs = persisted 0 0 1 5, root_ok = True, bin_file = Some [],
         trace = []\<rparr>"
      "\<lparr>head = 0, tail = 0, item_size = 1, item_num = 5\<rparr>"]
  by (simp add: lfring_defs)

text \<open>
  C9. After a successful \<^verbatim>\<open>LFRingInit\<close> with nothing persisted before,
  \<^verbatim>\<open>LFRingIsEmpty\<close> returns 1 and \<^verbatim>\<open>LFRingRead\<close> returns 0. And in every state whose
  reloaded metadata has \<open>head = tail\<close>, \<^verbatim>\<open>LFRingRead\<close> returns 0 and stores nothing,
  without any reset: the environment is the one before the call.
\<close>

theorem fresh_engine_empty:
  "(nvs e = None \<longrightarrow> LFRingInit e m0 itemSize itemNum = (st, e1, m1) \<longrightarrow> 0 \<le> st \<longrightarrow>
      LFRingIsEmpty e1 m1 = (1, m1) \<and> LFRingRead e1 m1 num = Some (0, [], e1, m1)) \<and>
   (load_ringbuf_meta e m0 = (st', m) \<longrightarrow> head m = tail m \<longrightarrow>
      LFRingRead e m0 num = Some (0, [], e, m))"
  by (auto simp: LFRingInit_def init_ringbuf_meta_def reset_meta_cases init_ringbuf_lfs_def
      reset_lfs_cases LFRingIsEmpty_def LFRingRead_def load_ringbuf_meta_def nvs_get_u32_def
      persisted_def status_defs Let_def split: if_splits)

text \<open>
  A first initialisation over a stale file, then a state with head 3 and tail 3.
\<close>

theorem fresh_engine_empty_witness:
  "LFRingInit
     \<lparr>nvs_up = True, nvs = None, root_ok = True, bin_file = Some [9, 9, 9], trace = []\<rparr>
     \<lparr>head = 0, tail = 0, item_size = 0, item_num = 0\<rparr> 1 5
   = (0, \<lparr>nvs_up = True, nvs = persisted 0 0 1 5, root_ok = True, bin_file = Some [],
           trace = []\<rparr>,
      \<lparr>head = 0, tail = 0, item_size = 1, item_num = 5\<rparr>) \<and>
   LFRingIsEmpty
     \<lparr>nvs_up = True, nvs = persisted 0 0 1 5, root_ok = True, bin_file = Some [], trace = []\<rparr>
     \<lparr>head = 0, tail = 0, item_size = 1, item_num = 5\<rparr>
   = (1, \<lparr>head = 0, tail = 0, item_size = 1, item_num = 5\<rparr>) \<and>
   LFRingRead
     \<lparr>nvs_up = True, nvs = persisted 0 0 1 5, root_ok = True, bin_file = Some [], trace = []\<rparr>
     \<lparr>head = 0, tail = 0, item_size = 1, item_num = 5\<rparr> 2
   = Some (0, [],
       \<lparr>nvs_up = True, nvs = persisted 0 0 1 5, root_ok = True, bin_file = Some [], trace = []\<rparr>,
       \<lparr>head = 0, tail = 0, item_size = 1, item_num = 5\<rparr>) \<and>
   load_ringbuf_meta
     \<lparr>nvs_up = True, nvs = persisted 3 3 1 5, root_ok = True, bin_file = Some [1, 2, 3],
        trace = []\<rparr>
     \<lparr>head = 0, tail = 0, item_size = 1, item_num = 5\<rparr>
   = (0, \<lparr>head = 3, tail = 3, item_size = 1, item_num = 5\<rparr>) \<and>
   LFRingRead
     \<lparr>nvs_up = True, nvs = persisted 3 3 1 5, root_ok = True, bin_file = Some [1, 2, 3],
        trace = []\<rparr>
     \<lparr>head = 0, tail = 0, item_size = 1, item_num = 5\<rparr> 2
   = Some (0, [],
       \<lparr>nvs_up = True, nvs = persisted 3 3 1 5, root_ok = True, bin_file = Some [1, 2, 3],
          trace = []\<rparr>,
       \<lparr>head = 3, tail = 3, item_size = 1, item_num = 5\<rparr>)"
proof -
  have init: "LFRingInit
     \<lparr>nvs_up = True, nvs = None, root_ok = True, bin_file = Some [9, 9, 9], trace = []\<rparr>
     \<lparr>head = 0, tail = 0, item_size = 0, item_num = 0\<rparr> 1 5
   = (0, \<lparr>nvs_up = True, nvs = persisted 0 0 1 5, root_ok = True, bin_file = Some [],
           trace = []\<rparr>,
      \<lparr>head = 0, tail = 0, item_size = 1, item_num = 5\<rparr>)"
    by (simp add: lfring_defs)
  have load: "load_ringbuf_meta
     \<lparr>nvs_up = True, nvs = persisted 3 3 1 5, root_ok = True, bin_file = Some [1, 2, 3],
        trace = []\<rparr>
     \<lparr>head = 0, tail = 0, item_size = 1, item_num = 5\<rparr>
   = (0, \<lparr>head = 3, tail = 3, item_size = 1, item_num = 5\<rparr>)"
    by (simp add: load_ringbuf_meta_def nvs_get_u32_def persisted_def status_defs)
  from fresh_engine_empty [of
      "\<lparr>nvs_up = True, nvs = None, root_ok = True, bin_file = Some [9, 9, 9], trace = []\<rparr>"
      "\<lparr>head = 0, tail = 0, item_size = 0, item_num = 0\<rparr>" 1 5 0
      "\<lparr>nvs_up = True, nvs = persisted 0 0 1 5, root_ok = True, bin_file = Some [],
         trace = []\<rparr>"
      "\<lparr>head = 0, tail = 0, item_size = 1, item_num = 5\<rparr>" 2]
    init
  have first: "LFRingIsEmpty
       \<lparr>nvs_up = True, nvs = persisted 0 0 1 5, root_ok = True, bin_file = Some [],
          trace = []\<rparr>
       \<lparr>head = 0, tail = 0, item_size = 1, item_num = 5\<rparr>
     = (1, \<lparr>head = 0, tail = 0, item_size = 1, item_num = 5\<rparr>) \<and>
     LFRingRead
       \<lparr>nvs_up = True, nvs = persisted 0 0 1 5, root_ok = True, bin_file = Some [],
          trace = []\<rparr>
       \<lparr>head = 0, tail = 0, item_size = 1, item_num = 5\<rparr> 2
     = Some (0, [],
         \<lparr>nvs_up = True, nvs = persisted 0 0 1 5, root_ok = True, bin_file = Some [],
            trace = []\<rparr>,
         \<lparr>head = 0, tail = 0, item_size = 1, item_num = 5\<rparr>)"
    by simp
  from fresh_engine_empty [of
      "\<lparr>nvs_up = True, nvs = persisted 3 3 1 5, root_ok = True, bin_file = Some [1, 2, 3],
         trace = []\<rparr>"
      "\<lparr>head = 0, tail = 0, item_size = 1, item_num = 5\<rparr>" _ _ _ _ _ 2 0
      "\<lparr>head = 3, tail = 3, item_size = 1, item_num = 5\<rparr>"]
    load
  have second: "LFRingRead
       \<lparr>nvs_up = True, nvs = persisted 3 3 1 5, root_ok = True, bin_file = Some [1, 2, 3],
          trace = []\<rparr>
       \<lparr>head = 0, tail = 0, item_size = 1, item_num = 5\<rparr> 2
     = Some (0, [],
         \<lparr>nvs_up = True, nvs = persisted 3 3 1 5, root_ok = True, bin_file = Some [1, 2, 3],
            trace = []\<rparr>,
         \<lparr>head = 3, tail = 3, item_size = 1, item_num = 5\<rparr>)"
    by simp
  show ?thesis using init load first second by (simp only: simp_thms)
qed

end
